theory Spec2Isabelle
  imports Main "HOL-Library.Extended_Nat" "HOL-Library.Sublist"
begin

section \<open>Data model\<close>

text \<open>
  The message dispatch pipeline (\<^verbatim>\<open>sendMessage\<close>) and the invitation acceptance page
  (\<^verbatim>\<open>AcceptInvitation\<close>) are embedded with explicit state passing. JavaScript strings
  are \<open>string\<close>; an argument that may be \<^verbatim>\<open>undefined\<close> is an \<open>option\<close>; a thrown
  \<^verbatim>\<open>Error\<close> is the \<open>Inl\<close> of a sum. The awaits of one \<^verbatim>\<open>sendMessage\<close> call follow
  program order; the concurrent callbacks of its group fan-out are laid out in phases.
  The two awaits of an invitation acceptance are separate steps, between which other
  clients may act.
\<close>

datatype msg_type = TextMsg | ImageMsg | FileMsg | AudioMsg

datatype content = Single string | PerLanguage "string \<rightharpoonup> string"

datatype timestamp = ServerTimestamp

record message =
  senderId :: string
  timestamp :: timestamp
  chatId :: string
  mtype :: msg_type
  content :: content
  fileUrl :: "string option"
  originalContent :: "string option"

text \<open>A \<^verbatim>\<open>Blob\<close> has a byte size and a MIME type; a \<^verbatim>\<open>File\<close> is a \<^verbatim>\<open>Blob\<close> with a name.\<close>

record blob =
  blobSize :: nat
  blobType :: string

record File = blob +
  fileName :: string

datatype chat_type = Private | Group | Ai

record ChatData =
  ctype :: chat_type
  participants :: "string list"

record UserData =
  preferredLang :: "string option"

datatype resource = Messages | Translations | AiInteractions | FileStorageBytes | GroupChats

datatype error = MessageLimit | FileStorageLimit | FileSizeExceeded | AiInteractionLimit

definition errorMessage :: "error \<Rightarrow> string" where
  "errorMessage err = (case err of
      MessageLimit \<Rightarrow> ''You've reached your message limit for the free tier. Please upgrade to send more messages.''
    | FileStorageLimit \<Rightarrow> ''You've reached your file storage limit for the free tier. Please upgrade to upload more files.''
    | FileSizeExceeded \<Rightarrow> ''File size exceeds the maximum limit of 10MB.''
    | AiInteractionLimit \<Rightarrow> ''You've reached your AI interaction limit for the free tier. Please upgrade to continue using AI chat.'')"

text \<open>
  The calls a dispatch makes to its collaborators, in the order they are issued: the
  quota ledger, the blob store, the transcription endpoint, the translation API and the
  append to the chat's message collection.
\<close>

datatype call =
    CheckAndIncrementUsage string resource
  | CheckFileStorageLimit string nat
  | IncrementFileStorage string nat
  | UploadBytes string nat
  | Transcribe
  | Translate string string
  | AddDoc string

text \<open>
  The mutable world: the usage counters of every user, the blob store (path to stored
  byte size), the message sequence of every chat, and the log of calls.
\<close>

record world =
  usage :: "string \<Rightarrow> resource \<Rightarrow> nat"
  storage :: "string \<rightharpoonup> nat"
  messages :: "string \<Rightarrow> message list"
  calls :: "call list"

text \<open>
  What a dispatch reads and does not change: each user's plan limits (\<open>\<infinity>\<close> for an
  unlimited resource), the user profiles, the clock, the download URL the blob store
  gives for a path, and the outcome of the transcription and translation requests
  (\<open>None\<close> when the request throws or answers with an error). The document store, the
  blob store and the ledger answer every request; the two services are the collaborators
  that may fail.
\<close>

record env =
  plan :: "string \<Rightarrow> resource \<Rightarrow> enat"
  userDocs :: "string \<rightharpoonup> UserData"
  now :: nat
  downloadURL :: "string \<Rightarrow> string"
  stt :: "blob \<Rightarrow> string option"
  translateApi :: "string \<Rightarrow> string \<Rightarrow> string option"

section \<open>Strings\<close>

text \<open>
  \<^verbatim>\<open>String.prototype.trim\<close> removes white space and line terminators at both ends.
  Characters stand for the code units below 256; of these the white space ones are
  TAB, LF, VT, FF, CR, SP and NBSP.
\<close>

definition isWhiteSpace :: "char \<Rightarrow> bool" where
  "isWhiteSpace c \<longleftrightarrow>
     c \<in> set [CHR 0x09, CHR 0x0A, CHR 0x0B, CHR 0x0C, CHR 0x0D, CHR 0x20, CHR 0xA0]"

definition trim :: "string \<Rightarrow> string" where
  "trim s = rev (dropWhile isWhiteSpace (rev (dropWhile isWhiteSpace s)))"

text \<open>Decimal rendering of \<^verbatim>\<open>Date.now()\<close> inside the template string of the file name.\<close>

fun showNat :: "nat \<Rightarrow> string" where
  "showNat n = (if n < 10 then [char_of (48 + n)]
                else showNat (n div 10) @ [char_of (48 + n mod 10)])"

section \<open>Quota ledger\<close>

definition logCall :: "call \<Rightarrow> world \<Rightarrow> world" where
  "logCall c w = w\<lparr>calls := calls w @ [c]\<rparr>"

text \<open>
  Modelled from the spec: \<^verbatim>\<open>checkAndIncrementUsage\<close> of \<^verbatim>\<open>@/lib/usageTracking\<close>, which
  is not among the sources. Within one metering period it reads the counter of
  \<open>(userId, resource)\<close>; if the counter is below the plan's limit it increments the
  counter and returns true, otherwise it returns false and leaves the counter unchanged.
\<close>

definition checkAndIncrementUsage :: "env \<Rightarrow> string \<Rightarrow> resource \<Rightarrow> world \<Rightarrow> bool \<times> world" where
  "checkAndIncrementUsage e userId r w =
     (let w1 = logCall (CheckAndIncrementUsage userId r) w in
      if enat (usage w1 userId r) < plan e userId r
      then (True, w1\<lparr>usage := (usage w1)(userId := (usage w1 userId)(r := usage w1 userId r + 1))\<rparr>)
      else (False, w1))"

text \<open>
  Modelled from the spec: \<^verbatim>\<open>checkFileStorageLimit\<close> of \<^verbatim>\<open>@/lib/usageTracking\<close>, a
  read-only comparison: allowed unless the prospective total of stored bytes would exceed
  the plan's file storage limit.
\<close>

definition checkFileStorageLimit :: "env \<Rightarrow> string \<Rightarrow> nat \<Rightarrow> world \<Rightarrow> bool \<times> world" where
  "checkFileStorageLimit e userId bytes w =
     (enat (usage w userId FileStorageBytes + bytes) \<le> plan e userId FileStorageBytes,
      logCall (CheckFileStorageLimit userId bytes) w)"

text \<open>
  Modelled from the spec: \<^verbatim>\<open>incrementFileStorage\<close> of \<^verbatim>\<open>@/lib/usageTracking\<close>, an
  unconditional add to the stored-bytes counter.
\<close>

definition incrementFileStorage :: "string \<Rightarrow> nat \<Rightarrow> world \<Rightarrow> world" where
  "incrementFileStorage userId bytes w =
     (let w1 = logCall (IncrementFileStorage userId bytes) w in
      w1\<lparr>usage := (usage w1)(userId :=
            (usage w1 userId)(FileStorageBytes := usage w1 userId FileStorageBytes + bytes))\<rparr>)"

section \<open>Collaborators\<close>

definition uploadBytes :: "string \<Rightarrow> nat \<Rightarrow> world \<Rightarrow> world" where
  "uploadBytes path bytes w =
     (let w1 = logCall (UploadBytes path bytes) w in
      w1\<lparr>storage := (storage w1)(path \<mapsto> bytes)\<rparr>)"

definition addDoc :: "string \<Rightarrow> message \<Rightarrow> world \<Rightarrow> world" where
  "addDoc cid m w =
     (let w1 = logCall (AddDoc cid) w in
      w1\<lparr>messages := (messages w1)(cid := messages w1 cid @ [m])\<rparr>)"

text \<open>
  \<^verbatim>\<open>translateMessage\<close>: the answer of one request to the translation API; any failure
  is caught and the original message is returned. The request itself is logged where
  \<^verbatim>\<open>translateMessage\<close> is called.
\<close>

definition translateMessage :: "env \<Rightarrow> string \<Rightarrow> string \<Rightarrow> string" where
  "translateMessage e message lang =
     (case translateApi e message lang of
        Some translatedText \<Rightarrow> translatedText
      | None \<Rightarrow> message)"

section \<open>Message dispatch\<close>

definition MAX_FILE_SIZE :: nat where
  "MAX_FILE_SIZE = 10 * 1024 * 1024"

text \<open>The voice note branch: upload, storage charge, transcription with its fallback.\<close>

definition handleVoiceNote :: "env \<Rightarrow> string \<Rightarrow> string \<Rightarrow> blob \<Rightarrow> world \<Rightarrow> message \<times> world" where
  "handleVoiceNote e cid userId audioBlob w =
     (let name = ''voice_'' @ showNat (now e) @ ''.webm'';
          path = ''chats/'' @ cid @ ''/'' @ name;
          w1 = uploadBytes path (blobSize audioBlob) w;
          url = downloadURL e path;
          w2 = incrementFileStorage userId (blobSize audioBlob) w1;
          w3 = logCall Transcribe w2;
          transcript = (case stt e audioBlob of Some t \<Rightarrow> t | None \<Rightarrow> ''Transcription failed'')
      in (\<lparr>senderId = userId, timestamp = ServerTimestamp, chatId = cid, mtype = AudioMsg,
            content = Single name, fileUrl = Some url, originalContent = Some transcript\<rparr>, w3))"

text \<open>The file branch: capacity check, absolute size cap, upload, storage charge.\<close>

definition handleFileUpload :: "env \<Rightarrow> string \<Rightarrow> string \<Rightarrow> File \<Rightarrow> world \<Rightarrow> (error + message) \<times> world" where
  "handleFileUpload e cid userId f w =
     (let (canUploadFile, w1) = checkFileStorageLimit e userId (blobSize f) w in
      if \<not> canUploadFile then (Inl FileStorageLimit, w1)
      else if blobSize f > MAX_FILE_SIZE then (Inl FileSizeExceeded, w1)
      else
        let path = ''chats/'' @ cid @ ''/'' @ fileName f;
            w2 = uploadBytes path (blobSize f) w1;
            url = downloadURL e path;
            w3 = incrementFileStorage userId (blobSize f) w2
        in (Inr \<lparr>senderId = userId, timestamp = ServerTimestamp, chatId = cid,
                  mtype = (if prefix ''image/'' (blobType f) then ImageMsg else FileMsg),
                  content = Single (fileName f), fileUrl = Some url, originalContent = None\<rparr>, w3))"

definition handleTextMessage :: "string \<Rightarrow> string \<Rightarrow> string \<Rightarrow> message" where
  "handleTextMessage cid userId contentArg =
     \<lparr>senderId = userId, timestamp = ServerTimestamp, chatId = cid, mtype = TextMsg,
      content = Single contentArg, fileUrl = None, originalContent = None\<rparr>"

text \<open>
  The group fan-out \<^verbatim>\<open>Promise.all(participantLanguages.map(async (lang) => ...))\<close>.
  \<^verbatim>\<open>map\<close> starts every callback, and each runs up to its first \<^verbatim>\<open>await\<close>: all the quota
  charges are issued, in list order, before any callback continues. The ledger is atomic
  and takes them in that order.
\<close>

fun chargeAll :: "env \<Rightarrow> string \<Rightarrow> string list \<Rightarrow> world \<Rightarrow> bool list \<times> world" where
  "chargeAll e userId [] w = ([], w)"
| "chargeAll e userId (lang # langs) w =
     (let (canTranslate, w1) = checkAndIncrementUsage e userId Translations w;
          (rest, w2) = chargeAll e userId langs w1
      in (canTranslate # rest, w2))"

text \<open>
  Each callback then continues with the answer to its charge: a denied one stores the
  original text under its language at once, a granted one issues its translation request
  and waits for it.
\<close>

fun resumeAll :: "string \<Rightarrow> (string \<times> bool) list \<Rightarrow> (string \<rightharpoonup> string) \<Rightarrow> world
    \<Rightarrow> (string \<rightharpoonup> string) \<times> world" where
  "resumeAll original [] translations w = (translations, w)"
| "resumeAll original ((lang, canTranslate) # rest) translations w =
     (if canTranslate
      then resumeAll original rest translations (logCall (Translate original lang) w)
      else resumeAll original rest (translations(lang \<mapsto> original)) w)"

text \<open>
  Last, the translation requests are answered and each granted callback stores what
  \<^verbatim>\<open>translateMessage\<close> returns under its language. All callbacks write the one object
  \<^verbatim>\<open>translations\<close>, so for a language that occurs twice the later write stays.
\<close>

fun storeAll :: "env \<Rightarrow> string \<Rightarrow> (string \<times> bool) list \<Rightarrow> (string \<rightharpoonup> string)
    \<Rightarrow> (string \<rightharpoonup> string)" where
  "storeAll e original [] translations = translations"
| "storeAll e original ((lang, canTranslate) # rest) translations =
     storeAll e original rest
       (if canTranslate then translations(lang \<mapsto> translateMessage e original lang)
        else translations)"

definition translateAll :: "env \<Rightarrow> string \<Rightarrow> string \<Rightarrow> string list \<Rightarrow> world
    \<Rightarrow> (string \<rightharpoonup> string) \<times> world" where
  "translateAll e userId original langs w =
     (let (outcomes, w1) = chargeAll e userId langs w;
          (translations, w2) = resumeAll original (zip langs outcomes) Map.empty w1
      in (storeAll e original (zip langs outcomes) translations, w2))"

text \<open>
  The text handed to translation: the transcript of an audio message (always set by the
  voice note branch), the content argument of a text message.
\<close>

definition textToTranslate :: "message \<Rightarrow> string \<Rightarrow> string" where
  "textToTranslate m contentArg =
     (if mtype m = AudioMsg then (case originalContent m of Some t \<Rightarrow> t | None \<Rightarrow> [])
      else contentArg)"

text \<open>\<^verbatim>\<open>userData.preferredLang || "en"\<close>: an unset or empty preferred language gives "en".\<close>

definition targetLang :: "UserData \<Rightarrow> string" where
  "targetLang userData =
     (case preferredLang userData of None \<Rightarrow> ''en'' | Some l \<Rightarrow> if l = [] then ''en'' else l)"

text \<open>Translation of text messages and transcribed audio, by chat type.\<close>

definition handleTranslation :: "env \<Rightarrow> string \<Rightarrow> string \<Rightarrow> ChatData option \<Rightarrow> string list
    \<Rightarrow> message \<Rightarrow> world \<Rightarrow> (error + message) \<times> world" where
  "handleTranslation e userId contentArg chatData participantLanguages m w =
     (if mtype m = TextMsg \<or> mtype m = AudioMsg then
        (case chatData of
           None \<Rightarrow> (Inr m, w)
         | Some cd \<Rightarrow>
             (case ctype cd of
                Private \<Rightarrow>
                  (case find (\<lambda>p. p \<noteq> userId) (participants cd) of
                     None \<Rightarrow> (Inr m, w)
                   | Some otherParticipantId \<Rightarrow>
                       if otherParticipantId = [] then (Inr m, w)
                       else
                         (case userDocs e otherParticipantId of
                            None \<Rightarrow> (Inr m, w)
                          | Some userData \<Rightarrow>
                              (let (canTranslate, w1) = checkAndIncrementUsage e userId Translations w in
                               if canTranslate
                               then (Inr (m\<lparr>content := Single (translateMessage e (textToTranslate m contentArg)
                                                                    (targetLang userData))\<rparr>),
                                     logCall (Translate (textToTranslate m contentArg) (targetLang userData)) w1)
                               else (Inr (m\<lparr>content := Single (textToTranslate m contentArg)\<rparr>), w1))))
              | Group \<Rightarrow>
                  (let (translations, w1) =
                         translateAll e userId (textToTranslate m contentArg) participantLanguages w
                   in (Inr (m\<lparr>content := PerLanguage translations\<rparr>), w1))
              | Ai \<Rightarrow>
                  (let (canUseAI, w1) = checkAndIncrementUsage e userId AiInteractions w in
                   if \<not> canUseAI then (Inl AiInteractionLimit, w1)
                   else (Inr (m\<lparr>content := Single (textToTranslate m contentArg)\<rparr>), w1))))
      else (Inr m, w))"

text \<open>The payload branch: audio first, then file, then text; exactly one runs.\<close>

definition handlePayload :: "env \<Rightarrow> string \<Rightarrow> File option \<Rightarrow> blob option \<Rightarrow> string \<Rightarrow> string
    \<Rightarrow> world \<Rightarrow> (error + message) \<times> world" where
  "handlePayload e contentArg fileArg audioBlob cid userId w =
     (case audioBlob of
        Some b \<Rightarrow> (let (m, w1) = handleVoiceNote e cid userId b w in (Inr m, w1))
      | None \<Rightarrow>
          (case fileArg of
             Some f \<Rightarrow> handleFileUpload e cid userId f w
           | None \<Rightarrow> (Inr (handleTextMessage cid userId contentArg), w)))"

definition rejected :: "string \<Rightarrow> File option \<Rightarrow> blob option \<Rightarrow> string \<Rightarrow> bool" where
  "rejected contentArg fileArg audioBlob userId \<longleftrightarrow>
     (trim contentArg = [] \<and> fileArg = None \<and> audioBlob = None) \<or> userId = []"

text \<open>
  \<^verbatim>\<open>sendMessage\<close>. The first line returns without a value and without an error; past
  it, an error thrown inside the \<^verbatim>\<open>try\<close> is logged and thrown again, so it reaches the
  caller.
\<close>

definition sendMessage :: "env \<Rightarrow> string \<Rightarrow> File option \<Rightarrow> blob option \<Rightarrow> string \<Rightarrow> string
    \<Rightarrow> ChatData option \<Rightarrow> string list \<Rightarrow> world \<Rightarrow> (error + unit) \<times> world" where
  "sendMessage e contentArg fileArg audioBlob cid userId chatData participantLanguages w =
     (if rejected contentArg fileArg audioBlob userId then (Inr (), w)
      else
        (let (canSendMessage, w1) = checkAndIncrementUsage e userId Messages w in
         if \<not> canSendMessage then (Inl MessageLimit, w1)
         else
           (case handlePayload e contentArg fileArg audioBlob cid userId w1 of
              (Inl err, w2) \<Rightarrow> (Inl err, w2)
            | (Inr m, w2) \<Rightarrow>
                (case handleTranslation e userId contentArg chatData participantLanguages m w2 of
                   (Inl err, w3) \<Rightarrow> (Inl err, w3)
                 | (Inr m', w3) \<Rightarrow> (Inr (), addDoc cid m' w3)))))"

text \<open>The calls issued between an earlier world and a later one.\<close>

definition issued :: "world \<Rightarrow> world \<Rightarrow> call list" where
  "issued w w' = drop (length (calls w)) (calls w')"

text \<open>The calls of the translation stage: translation and AI quota charges, translation requests.\<close>

definition translationCall :: "string \<Rightarrow> call \<Rightarrow> bool" where
  "translationCall u c \<longleftrightarrow>
     c = CheckAndIncrementUsage u Translations \<or> c = CheckAndIncrementUsage u AiInteractions
     \<or> (\<exists>t l. c = Translate t l)"

section \<open>Invitation acceptance\<close>

text \<open>
  The \<^verbatim>\<open>AcceptInvitation\<close> page. Its component state is the pair of \<^verbatim>\<open>state\<close> and
  \<^verbatim>\<open>error\<close>; the chat documents are the \<^verbatim>\<open>chats\<close> collection, shared by all clients.
  \<^verbatim>\<open>handleAcceptInvitation\<close> awaits the store twice, first \<^verbatim>\<open>getDoc\<close> and later
  \<^verbatim>\<open>updateDoc\<close>, outside any transaction: a client is suspended between the two, and
  other clients may act on the store meanwhile. The navigation three seconds after
  \<^verbatim>\<open>redirecting\<close> is left out.
\<close>

datatype session_status = SessionLoading | Authenticated | Unauthenticated

datatype page_state = Loading | Accepting | Redirecting | ErrorState

record page =
  state :: page_state
  errorText :: string

type_synonym chats = "string \<rightharpoonup> ChatData"

text \<open>
  How far a mounted page has come: the effect has not run yet; \<^verbatim>\<open>getDoc\<close> has answered
  with a snapshot for a chat id and a user id and the rest of the function is still to
  run; or nothing more will happen.
\<close>

datatype progress = Mounted | AfterGetDoc string string "ChatData option" | Settled

record client =
  status :: session_status
  token :: "string option"
  sessionUserId :: "string option"
  page :: page
  progress :: progress

definition arrayUnion :: "string \<Rightarrow> string list \<Rightarrow> string list" where
  "arrayUnion x xs = (if x \<in> set xs then xs else xs @ [x])"

text \<open>
  \<^verbatim>\<open>updateDoc(chatRef, {participants: arrayUnion(id)})\<close>: the store adds the id to the
  participants the document has when the write arrives, whatever the writer read
  before; it refuses to update a document that does not exist.
\<close>

definition updateDoc :: "string \<Rightarrow> string \<Rightarrow> chats \<Rightarrow> chats option" where
  "updateDoc cid uid cs =
     (case cs cid of
        None \<Rightarrow> None
      | Some chatData \<Rightarrow>
          Some (cs(cid \<mapsto> chatData\<lparr>participants := arrayUnion uid (participants chatData)\<rparr>)))"

definition fail :: "string \<Rightarrow> client \<Rightarrow> client" where
  "fail msg c = c\<lparr>page := (page c)\<lparr>errorText := msg, state := ErrorState\<rparr>, progress := Settled\<rparr>"

text \<open>
  \<^verbatim>\<open>handleAcceptInvitation\<close> from its first line to the answer of \<^verbatim>\<open>await getDoc\<close>: the
  guard, \<^verbatim>\<open>setState('accepting')\<close> and the read of the chat document.
\<close>

definition handleAcceptInvitation_getDoc :: "chats \<Rightarrow> client \<Rightarrow> client" where
  "handleAcceptInvitation_getDoc cs c =
     (case token c of
        None \<Rightarrow> c\<lparr>progress := Settled\<rparr>
      | Some cid \<Rightarrow>
          (case sessionUserId c of
             None \<Rightarrow> c\<lparr>progress := Settled\<rparr>
           | Some uid \<Rightarrow>
               if uid = [] then c\<lparr>progress := Settled\<rparr>
               else c\<lparr>page := (page c)\<lparr>state := Accepting\<rparr>,
                      progress := AfterGetDoc cid uid (cs cid)\<rparr>))"

text \<open>
  \<^verbatim>\<open>handleAcceptInvitation\<close> from the answer of \<^verbatim>\<open>getDoc\<close> to its end: the checks on the
  snapshot that was read, then \<^verbatim>\<open>updateDoc\<close> on the store as it is now, then
  \<^verbatim>\<open>setState('redirecting')\<close>; every throw ends in the \<^verbatim>\<open>catch\<close>. The text of the
  store's own error for a missing document is abbreviated.
\<close>

definition handleAcceptInvitation_updateDoc :: "string \<Rightarrow> string \<Rightarrow> ChatData option \<Rightarrow> chats
    \<Rightarrow> client \<Rightarrow> chats \<times> client" where
  "handleAcceptInvitation_updateDoc cid uid chatSnap cs c =
     (case chatSnap of
        None \<Rightarrow> (cs, fail ''Invalid invitation'' c)
      | Some chatData \<Rightarrow>
          if ctype chatData = Private \<and> length (participants chatData) \<ge> 2
          then (cs, fail ''This private chat already has two members'' c)
          else if ctype chatData = Ai
          then (cs, fail ''AI chats do not support invitations'' c)
          else
            (case updateDoc cid uid cs of
               None \<Rightarrow> (cs, fail ''No document to update'' c)
             | Some cs' \<Rightarrow>
                 (cs', c\<lparr>page := (page c)\<lparr>state := Redirecting\<rparr>, progress := Settled\<rparr>)))"

text \<open>The effect that starts a run once the session is resolved.\<close>

definition acceptInvitationEffect :: "chats \<Rightarrow> client \<Rightarrow> client" where
  "acceptInvitationEffect cs c =
     (if status c = Authenticated \<and> token c \<noteq> None \<and> token c \<noteq> Some []
      then handleAcceptInvitation_getDoc cs c
      else if status c = Unauthenticated
      then fail ''You must be signed in to accept an invitation'' c
      else c\<lparr>progress := Settled\<rparr>)"

text \<open>One client runs until its next \<^verbatim>\<open>await\<close> is answered.\<close>

definition clientStep :: "chats \<Rightarrow> client \<Rightarrow> chats \<times> client" where
  "clientStep cs c =
     (case progress c of
        Mounted \<Rightarrow> (cs, acceptInvitationEffect cs c)
      | AfterGetDoc cid uid chatSnap \<Rightarrow> handleAcceptInvitation_updateDoc cid uid chatSnap cs c
      | Settled \<Rightarrow> (cs, c))"

text \<open>
  \<^verbatim>\<open>handleAcceptInvitation\<close> as a whole, when no other client acts between its two
  awaits: both parts on the same chat documents.
\<close>

definition handleAcceptInvitation :: "chats \<Rightarrow> client \<Rightarrow> chats \<times> client" where
  "handleAcceptInvitation cs c =
     (let c1 = handleAcceptInvitation_getDoc cs c in
      case progress c1 of
        AfterGetDoc cid uid chatSnap \<Rightarrow> handleAcceptInvitation_updateDoc cid uid chatSnap cs c1
      | _ \<Rightarrow> (cs, c1))"

text \<open>
  Several clients on the shared chat documents. A schedule names, step by step, the
  client whose pending \<^verbatim>\<open>await\<close> is answered next.
\<close>

fun schedule :: "nat list \<Rightarrow> chats \<times> client list \<Rightarrow> chats \<times> client list" where
  "schedule [] cfg = cfg"
| "schedule (i # rest) (cs, clients) =
     (if i < length clients
      then (let (cs', c') = clientStep cs (clients ! i) in schedule rest (cs', clients[i := c']))
      else schedule rest (cs, clients))"

definition initialPage :: page where
  "initialPage = \<lparr>state = Loading, errorText = []\<rparr>"

definition privateChatsWithinTwo :: "chats \<Rightarrow> bool" where
  "privateChatsWithinTwo cs \<longleftrightarrow>
     (\<forall>cid chatData. cs cid = Some chatData \<and> ctype chatData = Private
        \<longrightarrow> length (participants chatData) \<le> 2)"

section \<open>Concrete plans, users and worlds\<close>

text \<open>
  \<^verbatim>\<open>FREE_TIER_LIMITS\<close> of the pricing page. Its \<^verbatim>\<open>maxGroupMembers\<close> entry bounds no
  usage counter and is left out.
\<close>

definition FREE_TIER_LIMITS :: "resource \<Rightarrow> enat" where
  "FREE_TIER_LIMITS r = (case r of
      Messages \<Rightarrow> enat 100
    | Translations \<Rightarrow> enat 50
    | AiInteractions \<Rightarrow> enat 20
    | FileStorageBytes \<Rightarrow> enat (50 * 1024 * 1024)
    | GroupChats \<Rightarrow> enat 3)"

definition emptyWorld :: world where
  "emptyWorld = \<lparr>usage = (\<lambda>_ _. 0), storage = Map.empty, messages = (\<lambda>_. []), calls = []\<rparr>"

text \<open>A world in which a user has used \<open>n\<close> units of one resource.\<close>

definition usedWorld :: "string \<Rightarrow> resource \<Rightarrow> nat \<Rightarrow> world" where
  "usedWorld userId r n = emptyWorld\<lparr>usage := (\<lambda>_ _. 0)(userId := (\<lambda>_. 0)(r := n))\<rparr>"

text \<open>
  An environment on the free tier: \<open>bob\<close> prefers French, \<open>carol\<close> has no preferred
  language; whether the two services answer is a parameter.
\<close>

definition testEnv :: "bool \<Rightarrow> bool \<Rightarrow> env" where
  "testEnv sttUp translateUp =
     \<lparr>plan = (\<lambda>_. FREE_TIER_LIMITS),
      userDocs = [''bob'' \<mapsto> \<lparr>preferredLang = Some ''fr''\<rparr>, ''carol'' \<mapsto> \<lparr>preferredLang = None\<rparr>],
      now = 1700000000000,
      downloadURL = (\<lambda>path. ''https://blobs/'' @ path),
      stt = (\<lambda>_. if sttUp then Some ''hello'' else None),
      translateApi = (\<lambda>message lang. if translateUp then Some (lang @ '':'' @ message) else None)\<rparr>"

text \<open>The same environment with every user on a plan without limits.\<close>

definition unlimitedEnv :: env where
  "unlimitedEnv = (testEnv True True)\<lparr>plan := (\<lambda>_ _. \<infinity>)\<rparr>"

definition voice :: blob where
  "voice = \<lparr>blobSize = 4096, blobType = ''audio/webm''\<rparr>"

definition bigFile :: File where
  "bigFile = \<lparr>blobSize = 12 * 1024 * 1024, blobType = ''application/pdf'', fileName = ''big.pdf''\<rparr>"

definition privateChat :: ChatData where
  "privateChat = \<lparr>ctype = Private, participants = [''alice'', ''bob'']\<rparr>"

definition groupChat :: ChatData where
  "groupChat = \<lparr>ctype = Group, participants = [''alice'', ''bob'', ''carol'']\<rparr>"

definition privateChatCarol :: ChatData where
  "privateChatCarol = \<lparr>ctype = Private, participants = [''alice'', ''carol'']\<rparr>"

text \<open>A private chat that so far holds its creator only, and a signed-in visitor of its link.\<close>

definition oneMember :: chats where
  "oneMember = [''c1'' \<mapsto> \<lparr>ctype = Private, participants = [''alice'']\<rparr>]"

definition invitee :: "string \<Rightarrow> client" where
  "invitee uid = \<lparr>status = Authenticated, token = Some ''c1'', sessionUserId = Some uid,
                   page = initialPage, progress = Mounted\<rparr>"

definition aiChat :: ChatData where
  "aiChat = \<lparr>ctype = Ai, participants = [''alice'']\<rparr>"

section \<open>The ledger and the stages of a dispatch\<close>

lemma checkAndIncrementUsage_eq:
  "checkAndIncrementUsage e u r w =
     (if enat (usage w u r) < plan e u r
      then (True, w\<lparr>usage := (usage w)(u := (usage w u)(r := Suc (usage w u r))),
                   calls := calls w @ [CheckAndIncrementUsage u r]\<rparr>)
      else (False, w\<lparr>calls := calls w @ [CheckAndIncrementUsage u r]\<rparr>))"
  by (simp add: checkAndIncrementUsage_def logCall_def Let_def)

lemma checkAndIncrementUsage_allowed:
  "fst (checkAndIncrementUsage e u r w) \<longleftrightarrow> enat (usage w u r) < plan e u r"
  by (simp add: checkAndIncrementUsage_eq)

lemmas dispatch_defs = sendMessage_def handlePayload_def handleVoiceNote_def handleFileUpload_def
  handleTextMessage_def checkFileStorageLimit_def incrementFileStorage_def uploadBytes_def
  addDoc_def logCall_def issued_def Let_def

lemmas example_defs = testEnv_def FREE_TIER_LIMITS_def emptyWorld_def usedWorld_def voice_def
  bigFile_def privateChat_def groupChat_def aiChat_def privateChatCarol_def unlimitedEnv_def

lemma not_rejected_text: "\<not> rejected ''hi'' None None ''alice''"
  by (simp add: rejected_def trim_def isWhiteSpace_def)


lemma chargeAll_messages: "messages (snd (chargeAll e u langs w)) = messages w"
  by (induction langs arbitrary: w) (simp_all add: split_def Let_def checkAndIncrementUsage_eq)

lemma chargeAll_storage: "storage (snd (chargeAll e u langs w)) = storage w"
  by (induction langs arbitrary: w) (simp_all add: split_def Let_def checkAndIncrementUsage_eq)

lemma chargeAll_usage:
  "r \<noteq> Translations \<Longrightarrow> usage (snd (chargeAll e u langs w)) u' r = usage w u' r"
  by (induction langs arbitrary: w) (simp_all add: split_def Let_def checkAndIncrementUsage_eq)

lemma chargeAll_calls:
  "calls (snd (chargeAll e u langs w)) =
     calls w @ replicate (length langs) (CheckAndIncrementUsage u Translations)"
  by (induction langs arbitrary: w)
     (simp_all add: split_def Let_def checkAndIncrementUsage_eq replicate_app_Cons_same)


lemma resumeAll_world:
  "snd (resumeAll t outs tr w) =
     w\<lparr>calls := calls w @ map (\<lambda>p. Translate t (fst p)) (filter snd outs)\<rparr>"
  by (induction outs arbitrary: tr w) (auto simp: logCall_def)



lemma translateAll_messages:
  "messages (snd (translateAll e u t langs w)) = messages w"
  by (simp add: translateAll_def split_def Let_def resumeAll_world chargeAll_messages)

lemma translateAll_storage:
  "storage (snd (translateAll e u t langs w)) = storage w"
  by (simp add: translateAll_def split_def Let_def resumeAll_world chargeAll_storage)

lemma translateAll_usage:
  "r \<noteq> Translations \<Longrightarrow> usage (snd (translateAll e u t langs w)) u' r = usage w u' r"
  by (simp add: translateAll_def split_def Let_def resumeAll_world chargeAll_usage)

lemma count_list_replicate: "count_list (replicate n x) x = n"
  by (induction n) simp_all

lemma translateAll_calls:
  "\<exists>cs. calls (snd (translateAll e u t langs w)) = calls w @ cs
      \<and> count_list cs (CheckAndIncrementUsage u Translations) = length langs
      \<and> (\<forall>c \<in> set cs. translationCall u c)"
proof -
  let ?outs = "zip langs (fst (chargeAll e u langs w))"
  let ?cs = "replicate (length langs) (CheckAndIncrementUsage u Translations)
             @ map (\<lambda>p. Translate t (fst p)) (filter snd ?outs)"
  have "calls (snd (translateAll e u t langs w)) = calls w @ ?cs"
    by (simp add: translateAll_def split_def Let_def resumeAll_world chargeAll_calls)
  moreover have "CheckAndIncrementUsage u Translations
      \<notin> set (map (\<lambda>p. Translate t (fst p)) (filter snd ?outs))"
    by auto
  then have "count_list ?cs (CheckAndIncrementUsage u Translations) = length langs"
    by (simp add: count_list_replicate count_list_0_iff)
  moreover have "\<forall>c \<in> set ?cs. translationCall u c"
    by (auto simp: translationCall_def)
  ultimately show ?thesis by blast
qed



lemma handleTranslation_state:
  "messages (snd (handleTranslation e u c cd langs m w)) = messages w
 \<and> storage (snd (handleTranslation e u c cd langs m w)) = storage w
 \<and> usage (snd (handleTranslation e u c cd langs m w)) u' Messages = usage w u' Messages
 \<and> usage (snd (handleTranslation e u c cd langs m w)) u' FileStorageBytes = usage w u' FileStorageBytes"
  by (simp add: handleTranslation_def checkAndIncrementUsage_eq logCall_def split_def Let_def
        translateAll_messages translateAll_storage translateAll_usage
      split: option.splits chat_type.splits)

lemma handleTranslation_calls:
  "\<exists>cs. calls (snd (handleTranslation e u c cd langs m w)) = calls w @ cs
      \<and> (\<forall>x \<in> set cs. translationCall u x)"
proof (cases "mtype m = TextMsg \<or> mtype m = AudioMsg")
  case False
  then show ?thesis by (simp add: handleTranslation_def)
next
  case ty: True
  show ?thesis
  proof (cases cd)
    case None
    with ty show ?thesis by (simp add: handleTranslation_def)
  next
    case (Some d)
    show ?thesis
    proof (cases "ctype d")
      case Private
      with ty Some show ?thesis
        by (simp add: handleTranslation_def checkAndIncrementUsage_eq logCall_def
              translationCall_def split: option.splits)
    next
      case Group
      from translateAll_calls [of e u "textToTranslate m c" langs w]
      obtain cs where "calls (snd (translateAll e u (textToTranslate m c) langs w)) = calls w @ cs"
        and "\<forall>x \<in> set cs. translationCall u x" by blast
      with ty Some Group show ?thesis
        by (simp add: handleTranslation_def split_def Let_def)
    next
      case Ai
      with ty Some show ?thesis
        by (simp add: handleTranslation_def checkAndIncrementUsage_eq translationCall_def)
    qed
  qed
qed

lemma handleTranslation_Inl:
  assumes "fst (handleTranslation e u c cd langs m w) = Inl err"
  shows "err = AiInteractionLimit
       \<and> snd (handleTranslation e u c cd langs m w) = w\<lparr>calls := calls w @ [CheckAndIncrementUsage u AiInteractions]\<rparr>
       \<and> (mtype m = TextMsg \<or> mtype m = AudioMsg)
       \<and> (\<exists>d. cd = Some d \<and> ctype d = Ai)
       \<and> \<not> enat (usage w u AiInteractions) < plan e u AiInteractions"
proof (cases "mtype m = TextMsg \<or> mtype m = AudioMsg")
  case False
  with assms show ?thesis by (simp add: handleTranslation_def)
next
  case ty: True
  show ?thesis
  proof (cases cd)
    case None
    with ty assms show ?thesis by (simp add: handleTranslation_def)
  next
    case (Some d)
    show ?thesis
    proof (cases "ctype d")
      case Private
      with ty Some assms show ?thesis
        by (simp add: handleTranslation_def checkAndIncrementUsage_eq
              split: option.splits if_splits)
    next
      case Group
      with ty Some assms show ?thesis
        by (simp add: handleTranslation_def split_def Let_def)
    next
      case Ai
      with ty Some assms show ?thesis
        by (simp add: handleTranslation_def checkAndIncrementUsage_eq split: if_splits)
    qed
  qed
qed

lemma sendMessage_stages:
  assumes "\<not> rejected contentArg fileArg audioBlob userId"
      and "fst (checkAndIncrementUsage e userId Messages w)"
  shows "sendMessage e contentArg fileArg audioBlob cid userId chatData langs w =
     (case handlePayload e contentArg fileArg audioBlob cid userId
             (w\<lparr>usage := (usage w)(userId := (usage w userId)(Messages := Suc (usage w userId Messages))),
                calls := calls w @ [CheckAndIncrementUsage userId Messages]\<rparr>) of
        (Inl err, w2) \<Rightarrow> (Inl err, w2)
      | (Inr m, w2) \<Rightarrow>
          (case handleTranslation e userId contentArg chatData langs m w2 of
             (Inl err, w3) \<Rightarrow> (Inl err, w3)
           | (Inr m', w3) \<Rightarrow> (Inr (), addDoc cid m' w3)))"
  using assms by (simp add: sendMessage_def checkAndIncrementUsage_eq split: if_splits)

lemma handlePayload_audio:
  "handlePayload e contentArg fileArg (Some b) cid userId w =
     (Inr \<lparr>senderId = userId, timestamp = ServerTimestamp, chatId = cid, mtype = AudioMsg,
           content = Single (''voice_'' @ showNat (now e) @ ''.webm''),
           fileUrl = Some (downloadURL e (''chats/'' @ cid @ ''/'' @ ''voice_'' @ showNat (now e) @ ''.webm'')),
           originalContent = Some (case stt e b of Some t \<Rightarrow> t | None \<Rightarrow> ''Transcription failed'')\<rparr>,
      w\<lparr>usage := (usage w)(userId := (usage w userId)
                     (FileStorageBytes := usage w userId FileStorageBytes + blobSize b)),
        storage := (storage w)(''chats/'' @ cid @ ''/'' @ ''voice_'' @ showNat (now e) @ ''.webm'' \<mapsto> blobSize b),
        calls := calls w @ [UploadBytes (''chats/'' @ cid @ ''/'' @ ''voice_'' @ showNat (now e) @ ''.webm'') (blobSize b),
                           IncrementFileStorage userId (blobSize b), Transcribe]\<rparr>)"
  by (simp add: handlePayload_def handleVoiceNote_def uploadBytes_def incrementFileStorage_def
        logCall_def Let_def)

lemma handlePayload_text:
  "handlePayload e contentArg None None cid userId w =
     (Inr \<lparr>senderId = userId, timestamp = ServerTimestamp, chatId = cid, mtype = TextMsg,
           content = Single contentArg, fileUrl = None, originalContent = None\<rparr>, w)"
  by (simp add: handlePayload_def handleTextMessage_def)

text \<open>What the translation stage and the append leave of the world after the payload stage.\<close>

lemma finish_state:
  fixes e userId contentArg chatData langs m w2 cid
  defines "ht \<equiv> handleTranslation e userId contentArg chatData langs m w2"
  defines "fin \<equiv> (case ht of (Inl err, w3) \<Rightarrow> (Inl err, w3)
                     | (Inr m', w3) \<Rightarrow> (Inr (), addDoc cid m' w3))"
  shows "storage (snd fin) = storage w2"
    and "usage (snd fin) u' Messages = usage w2 u' Messages"
    and "usage (snd fin) u' FileStorageBytes = usage w2 u' FileStorageBytes"
    and "\<exists>cs. calls (snd fin) = calls w2 @ cs \<and> (\<forall>x \<in> set cs. translationCall userId x \<or> x = AddDoc cid)"
proof -
  obtain r w3 where ht: "ht = (r, w3)" by (cases ht)
  from handleTranslation_state [of e userId contentArg chatData langs m w2 u'] ht
  have st: "storage w3 = storage w2" "usage w3 u' Messages = usage w2 u' Messages"
    "usage w3 u' FileStorageBytes = usage w2 u' FileStorageBytes"
    by (simp_all add: ht_def)
  from handleTranslation_calls [of e userId contentArg chatData langs m w2] ht
  obtain cs where cs: "calls w3 = calls w2 @ cs" "\<forall>x \<in> set cs. translationCall userId x"
    by (auto simp: ht_def)
  show "storage (snd fin) = storage w2"
    using st ht by (cases r) (simp_all add: fin_def addDoc_def logCall_def Let_def)
  show "usage (snd fin) u' Messages = usage w2 u' Messages"
    using st ht by (cases r) (simp_all add: fin_def addDoc_def logCall_def Let_def)
  show "usage (snd fin) u' FileStorageBytes = usage w2 u' FileStorageBytes"
    using st ht by (cases r) (simp_all add: fin_def addDoc_def logCall_def Let_def)
  show "\<exists>cs. calls (snd fin) = calls w2 @ cs \<and> (\<forall>x \<in> set cs. translationCall userId x \<or> x = AddDoc cid)"
  proof (cases r)
    case (Inl err)
    with ht cs show ?thesis by (simp add: fin_def)
  next
    case (Inr m')
    with ht cs have "calls (snd fin) = calls w2 @ (cs @ [AddDoc cid])"
      by (simp add: fin_def addDoc_def logCall_def Let_def)
    moreover from cs have "\<forall>x \<in> set (cs @ [AddDoc cid]). translationCall userId x \<or> x = AddDoc cid"
      by simp
    ultimately show ?thesis by blast
  qed
qed

lemma handleTranslation_Inr:
  assumes "fst (handleTranslation e u c cd langs m w) = Inr m'"
  shows "mtype m' = mtype m \<and> originalContent m' = originalContent m
       \<and> senderId m' = senderId m \<and> chatId m' = chatId m \<and> fileUrl m' = fileUrl m"
proof (cases "mtype m = TextMsg \<or> mtype m = AudioMsg")
  case False
  with assms show ?thesis by (auto simp: handleTranslation_def)
next
  case ty: True
  show ?thesis
  proof (cases cd)
    case None
    with ty assms show ?thesis by (auto simp: handleTranslation_def)
  next
    case (Some d)
    show ?thesis
    proof (cases "ctype d")
      case Private
      with ty Some assms show ?thesis
        by (auto simp: handleTranslation_def checkAndIncrementUsage_eq
              split: option.splits if_splits)
    next
      case Group
      with ty Some assms show ?thesis
        by (auto simp: handleTranslation_def split_def Let_def)
    next
      case Ai
      with ty Some assms show ?thesis
        by (auto simp: handleTranslation_def checkAndIncrementUsage_eq split: if_splits)
    qed
  qed
qed

lemma handleTranslation_Ai_denied:
  assumes "mtype m = TextMsg \<or> mtype m = AudioMsg"
      and "cd = Some d" and "ctype d = Ai"
      and "\<not> enat (usage w u AiInteractions) < plan e u AiInteractions"
  shows "handleTranslation e u c cd langs m w =
           (Inl AiInteractionLimit, w\<lparr>calls := calls w @ [CheckAndIncrementUsage u AiInteractions]\<rparr>)"
  using assms by (simp add: handleTranslation_def checkAndIncrementUsage_eq)

lemma handlePayload_file:
  "handlePayload e contentArg (Some f) None cid userId w =
     (if \<not> enat (usage w userId FileStorageBytes + blobSize f) \<le> plan e userId FileStorageBytes
      then (Inl FileStorageLimit, w\<lparr>calls := calls w @ [CheckFileStorageLimit userId (blobSize f)]\<rparr>)
      else if blobSize f > MAX_FILE_SIZE
      then (Inl FileSizeExceeded, w\<lparr>calls := calls w @ [CheckFileStorageLimit userId (blobSize f)]\<rparr>)
      else (Inr \<lparr>senderId = userId, timestamp = ServerTimestamp, chatId = cid,
                 mtype = (if prefix ''image/'' (blobType f) then ImageMsg else FileMsg),
                 content = Single (fileName f),
                 fileUrl = Some (downloadURL e (''chats/'' @ cid @ ''/'' @ fileName f)),
                 originalContent = None\<rparr>,
            w\<lparr>usage := (usage w)(userId := (usage w userId)
                           (FileStorageBytes := usage w userId FileStorageBytes + blobSize f)),
              storage := (storage w)(''chats/'' @ cid @ ''/'' @ fileName f \<mapsto> blobSize f),
              calls := calls w @ [CheckFileStorageLimit userId (blobSize f),
                                 UploadBytes (''chats/'' @ cid @ ''/'' @ fileName f) (blobSize f),
                                 IncrementFileStorage userId (blobSize f)]\<rparr>))"
  by (simp add: handlePayload_def handleFileUpload_def checkFileStorageLimit_def uploadBytes_def
        incrementFileStorage_def logCall_def Let_def)

lemma payload_text_or_audio:
  assumes "audioBlob \<noteq> None \<or> fileArg = None"
  obtains m w2 pre where
    "handlePayload e contentArg fileArg audioBlob cid userId w1 = (Inr m, w2)"
    "mtype m = TextMsg \<or> mtype m = AudioMsg"
    "textToTranslate m contentArg =
       (case audioBlob of
          Some b \<Rightarrow> (case stt e b of Some t \<Rightarrow> t | None \<Rightarrow> ''Transcription failed'')
        | None \<Rightarrow> contentArg)"
    "messages w2 = messages w1"
    "usage w2 userId Translations = usage w1 userId Translations"
    "usage w2 userId AiInteractions = usage w1 userId AiInteractions"
    "calls w2 = calls w1 @ pre"
    "\<forall>x \<in> set pre. \<forall>u. \<not> translationCall u x"
proof (cases audioBlob)
  case None
  with assms have "fileArg = None" by simp
  with None that [of "handleTextMessage cid userId contentArg" w1 "[]"]
  show ?thesis
    by (simp add: handlePayload_def handleTextMessage_def textToTranslate_def)
next
  case (Some b)
  with that [OF handlePayload_audio [of e contentArg fileArg b cid userId w1, folded Some]]
  show ?thesis
    by (simp add: textToTranslate_def translationCall_def)
qed

lemma handleTranslation_Private:
  assumes "mtype m = TextMsg \<or> mtype m = AudioMsg"
      and "cd = Some d" and "ctype d = Private"
      and "find (\<lambda>p. p \<noteq> u) (participants d) = Some other" and "other \<noteq> []"
      and "userDocs e other = Some userData"
  shows "fst (handleTranslation e u c cd langs m w) =
           Inr (m\<lparr>content := Single
                  (if enat (usage w u Translations) < plan e u Translations
                   then translateMessage e (textToTranslate m c) (targetLang userData)
                   else textToTranslate m c)\<rparr>)"
  using assms by (simp add: handleTranslation_def checkAndIncrementUsage_eq)

lemma handleTranslation_Ai:
  assumes "mtype m = TextMsg \<or> mtype m = AudioMsg"
      and "cd = Some d" and "ctype d = Ai"
  shows "handleTranslation e u c cd langs m w =
           (if enat (usage w u AiInteractions) < plan e u AiInteractions
            then (Inr (m\<lparr>content := Single (textToTranslate m c)\<rparr>),
                  w\<lparr>usage := (usage w)(u := (usage w u)(AiInteractions := Suc (usage w u AiInteractions))),
                    calls := calls w @ [CheckAndIncrementUsage u AiInteractions]\<rparr>)
            else (Inl AiInteractionLimit,
                  w\<lparr>calls := calls w @ [CheckAndIncrementUsage u AiInteractions]\<rparr>))"
  using assms by (simp add: handleTranslation_def checkAndIncrementUsage_eq)

section \<open>Input guard\<close>

text \<open>
  C8, as stated, fails: a call with blank content and neither file nor audio blob, and a
  call with an empty user id, return normally. No error reaches the caller.
\<close>

theorem C8_counterexample:
  "fst (sendMessage (testEnv True True) ''   '' None None ''c1'' ''alice'' (Some privateChat) []
          emptyWorld) = Inr ()
   \<and> fst (sendMessage (testEnv True True) ''hi'' None None ''c1'' [] (Some privateChat) []
          emptyWorld) = Inr ()"
  by (simp add: sendMessage_def rejected_def trim_def isWhiteSpace_def)

text \<open>
  C8, amended: when the content is empty after trimming and no file and no audio blob is
  supplied, or when the user id is empty, \<^verbatim>\<open>sendMessage\<close> returns without an error and
  without any effect: no quota check, no upload, no append; the world is unchanged.
\<close>

theorem C8_guard_returns_silently:
  assumes "(trim contentArg = [] \<and> fileArg = None \<and> audioBlob = None) \<or> userId = []"
  shows "sendMessage e contentArg fileArg audioBlob cid userId chatData langs w = (Inr (), w)"
  using assms by (simp add: sendMessage_def rejected_def)

theorem C8_witness:
  "((trim ''   '' = [] \<and> (None :: File option) = None \<and> (None :: blob option) = None) \<or> ''alice'' = [])
   \<and> sendMessage (testEnv True True) ''   '' None None ''c1'' ''alice'' (Some privateChat) []
        emptyWorld = (Inr (), emptyWorld)"
proof -
  have h: "(trim ''   '' = [] \<and> (None :: File option) = None \<and> (None :: blob option) = None)
           \<or> ''alice'' = []"
    by (simp add: trim_def isWhiteSpace_def)
  from C8_guard_returns_silently [OF h] h show ?thesis by blast
qed

section \<open>Message quota\<close>

text \<open>
  C1: a call that passes the input guard, by a user whose \<open>messages\<close> counter is at the
  plan limit, so that \<^verbatim>\<open>checkAndIncrementUsage(userId, "messages")\<close> returns false, fails
  with the message quota error. No message is appended, nothing is uploaded, no counter
  changes, and the only call issued is the message quota check itself: no upload, no
  transcription, no translation.
\<close>

theorem C1_message_quota_denied:
  fixes e contentArg fileArg audioBlob cid userId chatData langs w
  defines "out \<equiv> sendMessage e contentArg fileArg audioBlob cid userId chatData langs w"
  assumes "\<not> rejected contentArg fileArg audioBlob userId"
      and "\<not> fst (checkAndIncrementUsage e userId Messages w)"
  shows "fst out = Inl MessageLimit
       \<and> messages (snd out) = messages w
       \<and> storage (snd out) = storage w
       \<and> usage (snd out) = usage w
       \<and> issued w (snd out) = [CheckAndIncrementUsage userId Messages]"
  using assms(2-) unfolding out_def
  by (simp add: sendMessage_def issued_def checkAndIncrementUsage_eq split: if_splits)

theorem C1_witness:
  "\<not> rejected ''hi'' None None ''alice''
   \<and> \<not> fst (checkAndIncrementUsage (testEnv True True) ''alice'' Messages
              (usedWorld ''alice'' Messages 100))
   \<and> fst (sendMessage (testEnv True True) ''hi'' None None ''c1'' ''alice'' (Some privateChat) []
          (usedWorld ''alice'' Messages 100)) = Inl MessageLimit
   \<and> messages (snd (sendMessage (testEnv True True) ''hi'' None None ''c1'' ''alice''
          (Some privateChat) [] (usedWorld ''alice'' Messages 100)))
       = messages (usedWorld ''alice'' Messages 100)"
proof -
  have h: "\<not> fst (checkAndIncrementUsage (testEnv True True) ''alice'' Messages
                    (usedWorld ''alice'' Messages 100))"
    by (simp add: checkAndIncrementUsage_eq example_defs)
  from C1_message_quota_denied [OF not_rejected_text h, of "''c1''" "Some privateChat" "[]"]
    not_rejected_text h
  show ?thesis by blast
qed

section \<open>Files\<close>

text \<open>
  C5: a file send (no audio blob, a non-empty user id) with a file strictly larger than
  10 MiB is rejected with an error whatever the plan of the user: the message quota error
  when the message charge is denied, else the storage limit error when the capacity check
  is denied, else the absolute size error. Nothing is uploaded, no message is appended
  and no user's file storage counter changes.
\<close>

theorem C5_oversized_file_rejected:
  fixes e contentArg fileArg audioBlob cid userId chatData langs w
  defines "out \<equiv> sendMessage e contentArg fileArg audioBlob cid userId chatData langs w"
  assumes "userId \<noteq> []" and "audioBlob = None" and "fileArg = Some f"
      and "blobSize f > 10 * 1024 * 1024"
  shows "fst out =
           Inl (if \<not> fst (checkAndIncrementUsage e userId Messages w) then MessageLimit
                else if \<not> fst (checkFileStorageLimit e userId (blobSize f) w) then FileStorageLimit
                else FileSizeExceeded)
       \<and> storage (snd out) = storage w
       \<and> messages (snd out) = messages w
       \<and> usage (snd out) u FileStorageBytes = usage w u FileStorageBytes
       \<and> (\<forall>path n. UploadBytes path n \<notin> set (issued w (snd out)))"
  using assms(2-) unfolding out_def
  by (simp add: dispatch_defs rejected_def MAX_FILE_SIZE_def checkAndIncrementUsage_eq)

theorem C5_witness:
  "''alice'' \<noteq> [] \<and> blobSize bigFile > 10 * 1024 * 1024
   \<and> plan unlimitedEnv ''alice'' FileStorageBytes = \<infinity>
   \<and> fst (sendMessage unlimitedEnv [] (Some bigFile) None ''c1'' ''alice''
          (Some privateChat) [] emptyWorld) = Inl FileSizeExceeded
   \<and> storage (snd (sendMessage unlimitedEnv [] (Some bigFile) None ''c1'' ''alice''
          (Some privateChat) [] emptyWorld)) = storage emptyWorld
   \<and> messages (snd (sendMessage unlimitedEnv [] (Some bigFile) None ''c1'' ''alice''
          (Some privateChat) [] emptyWorld)) = messages emptyWorld
   \<and> usage (snd (sendMessage unlimitedEnv [] (Some bigFile) None ''c1'' ''alice''
          (Some privateChat) [] emptyWorld)) ''alice'' FileStorageBytes = 0"
proof -
  have h1: "''alice'' \<noteq> []" by simp
  have h2: "blobSize bigFile > 10 * 1024 * 1024" by (simp add: bigFile_def)
  have pl: "plan unlimitedEnv ''alice'' FileStorageBytes = \<infinity>"
    by (simp add: unlimitedEnv_def)
  have q: "fst (checkAndIncrementUsage unlimitedEnv ''alice'' Messages emptyWorld)"
    by (simp add: checkAndIncrementUsage_eq unlimitedEnv_def)
  have c: "fst (checkFileStorageLimit unlimitedEnv ''alice'' (blobSize bigFile) emptyWorld)"
    by (simp add: checkFileStorageLimit_def unlimitedEnv_def)
  have z: "usage emptyWorld ''alice'' FileStorageBytes = 0" by (simp add: emptyWorld_def)
  from C5_oversized_file_rejected [OF h1 refl refl h2, of unlimitedEnv "[]" "''c1''"
      "Some privateChat" "[]" emptyWorld "''alice''"] h1 h2 pl q c z
  show ?thesis by simp
qed

section \<open>Voice notes\<close>

text \<open>
  C10: every audio send that passes the input guard and the message quota check uploads
  the blob and adds its byte size to the sender's file storage counter, whatever the
  counter, the plan and the size are. No capacity check \<^verbatim>\<open>checkFileStorageLimit\<close> is
  issued in such a dispatch, and the branch has no size cap.
\<close>

theorem C10_audio_charged_unconditionally:
  fixes e contentArg fileArg audioBlob cid userId chatData langs w
  defines "out \<equiv> sendMessage e contentArg fileArg audioBlob cid userId chatData langs w"
      and "path \<equiv> ''chats/'' @ cid @ ''/'' @ ''voice_'' @ showNat (now e) @ ''.webm''"
  assumes "\<not> rejected contentArg fileArg audioBlob userId"
      and "fst (checkAndIncrementUsage e userId Messages w)"
      and "audioBlob = Some b"
  shows "usage (snd out) userId FileStorageBytes = usage w userId FileStorageBytes + blobSize b
       \<and> storage (snd out) = (storage w)(path \<mapsto> blobSize b)
       \<and> UploadBytes path (blobSize b) \<in> set (issued w (snd out))
       \<and> IncrementFileStorage userId (blobSize b) \<in> set (issued w (snd out))
       \<and> (\<forall>u n. CheckFileStorageLimit u n \<notin> set (issued w (snd out)))"
proof -
  obtain m w2 where p: "handlePayload e contentArg fileArg audioBlob cid userId
      (w\<lparr>usage := (usage w)(userId := (usage w userId)(Messages := Suc (usage w userId Messages))),
         calls := calls w @ [CheckAndIncrementUsage userId Messages]\<rparr>) = (Inr m, w2)"
    and w2: "usage w2 userId FileStorageBytes = usage w userId FileStorageBytes + blobSize b"
      "storage w2 = (storage w)(path \<mapsto> blobSize b)"
      "calls w2 = calls w @ [CheckAndIncrementUsage userId Messages,
          UploadBytes path (blobSize b), IncrementFileStorage userId (blobSize b), Transcribe]"
    by (simp add: assms(5) handlePayload_audio path_def)
  have eq: "out = (case handleTranslation e userId contentArg chatData langs m w2 of
                     (Inl err, w3) \<Rightarrow> (Inl err, w3)
                   | (Inr m', w3) \<Rightarrow> (Inr (), addDoc cid m' w3))"
    unfolding out_def by (simp add: sendMessage_stages [OF assms(3,4)] p)
  from finish_state(4) [where e = e and userId = userId and contentArg = contentArg
      and chatData = chatData and langs = langs and m = m and ?w2.0 = w2 and cid = cid]
  obtain cs where cs: "calls (snd out) = calls w2 @ cs"
    and tc: "\<forall>x \<in> set cs. translationCall userId x \<or> x = AddDoc cid"
    unfolding eq by blast
  have "usage (snd out) userId FileStorageBytes = usage w userId FileStorageBytes + blobSize b"
    unfolding eq by (simp add: finish_state(3) w2)
  moreover have "storage (snd out) = (storage w)(path \<mapsto> blobSize b)"
    unfolding eq by (simp add: finish_state(1) w2)
  moreover have "issued w (snd out) = [CheckAndIncrementUsage userId Messages,
        UploadBytes path (blobSize b), IncrementFileStorage userId (blobSize b), Transcribe] @ cs"
    using cs w2 by (simp add: issued_def)
  ultimately show ?thesis using tc by (auto simp: translationCall_def)
qed


theorem C10_witness:
  "\<not> rejected [] None (Some voice) ''alice''
   \<and> fst (checkAndIncrementUsage (testEnv True True) ''alice'' Messages
            (usedWorld ''alice'' FileStorageBytes (50 * 1024 * 1024)))
   \<and> \<not> fst (checkFileStorageLimit (testEnv True True) ''alice'' (blobSize voice)
            (usedWorld ''alice'' FileStorageBytes (50 * 1024 * 1024)))
   \<and> usage (snd (sendMessage (testEnv True True) [] None (Some voice) ''c1'' ''alice''
            (Some groupChat) [''fr'', ''de''] (usedWorld ''alice'' FileStorageBytes (50 * 1024 * 1024))))
          ''alice'' FileStorageBytes = 50 * 1024 * 1024 + 4096"
proof -
  have h1: "\<not> rejected [] None (Some voice) ''alice''"
    by (simp add: rejected_def)
  have h2: "fst (checkAndIncrementUsage (testEnv True True) ''alice'' Messages
                  (usedWorld ''alice'' FileStorageBytes (50 * 1024 * 1024)))"
    by (simp add: checkAndIncrementUsage_eq example_defs)
  have h3: "\<not> fst (checkFileStorageLimit (testEnv True True) ''alice'' (blobSize voice)
                  (usedWorld ''alice'' FileStorageBytes (50 * 1024 * 1024)))"
    by (simp add: checkFileStorageLimit_def example_defs)
  have u: "usage (usedWorld ''alice'' FileStorageBytes (50 * 1024 * 1024)) ''alice'' FileStorageBytes
             + blobSize voice = 50 * 1024 * 1024 + 4096"
    by (simp add: example_defs)
  from C10_audio_charged_unconditionally [OF h1 h2 refl, of "''c1''" "Some groupChat" "[''fr'', ''de'']"]
  have "usage (snd (sendMessage (testEnv True True) [] None (Some voice) ''c1'' ''alice''
            (Some groupChat) [''fr'', ''de''] (usedWorld ''alice'' FileStorageBytes (50 * 1024 * 1024))))
          ''alice'' FileStorageBytes
        = usage (usedWorld ''alice'' FileStorageBytes (50 * 1024 * 1024)) ''alice'' FileStorageBytes
            + blobSize voice"
    by blast
  with u h1 h2 h3 show ?thesis by simp
qed

text \<open>
  C6, as stated, fails: an audio send into an AI chat whose transcription request fails
  and whose AI interaction charge is denied does not complete. The send fails with the
  AI interaction error and no message is appended.
\<close>

theorem C6_counterexample:
  "stt (testEnv False True) voice = None
   \<and> fst (sendMessage (testEnv False True) [] None (Some voice) ''c1'' ''alice'' (Some aiChat) []
          (usedWorld ''alice'' AiInteractions 20)) = Inl AiInteractionLimit
   \<and> messages (snd (sendMessage (testEnv False True) [] None (Some voice) ''c1'' ''alice''
          (Some aiChat) [] (usedWorld ''alice'' AiInteractions 20))) ''c1'' = []"
  by (simp add: dispatch_defs rejected_def handleTranslation_def checkAndIncrementUsage_eq
        example_defs)

text \<open>
  C6, amended: for every audio send that passes the input guard and the message quota
  check and whose transcription request fails, the file storage counter has been
  incremented by the blob's byte size, and the failed transcription does not abort the
  dispatch: unless the chat is an AI chat whose AI interaction charge is denied (then the
  send fails with that error and nothing is appended), the send succeeds and appends one
  message of type audio whose \<open>originalContent\<close> is the string "Transcription failed".
\<close>

theorem C6_transcription_failure_not_fatal:
  fixes e contentArg fileArg audioBlob cid userId chatData langs w
  defines "out \<equiv> sendMessage e contentArg fileArg audioBlob cid userId chatData langs w"
      and "aiDenied \<equiv> (case chatData of
                          Some d \<Rightarrow> ctype d = Ai
                            \<and> \<not> enat (usage w userId AiInteractions) < plan e userId AiInteractions
                        | None \<Rightarrow> False)"
  assumes "\<not> rejected contentArg fileArg audioBlob userId"
      and "fst (checkAndIncrementUsage e userId Messages w)"
      and "audioBlob = Some b"
      and "stt e b = None"
  shows "usage (snd out) userId FileStorageBytes = usage w userId FileStorageBytes + blobSize b
       \<and> (if aiDenied
          then fst out = Inl AiInteractionLimit \<and> messages (snd out) = messages w
          else fst out = Inr ()
             \<and> (\<exists>m. messages (snd out) = (messages w)(cid := messages w cid @ [m])
                    \<and> mtype m = AudioMsg
                    \<and> originalContent m = Some ''Transcription failed''))"
proof -
  obtain m w2 where p: "handlePayload e contentArg fileArg audioBlob cid userId
      (w\<lparr>usage := (usage w)(userId := (usage w userId)(Messages := Suc (usage w userId Messages))),
         calls := calls w @ [CheckAndIncrementUsage userId Messages]\<rparr>) = (Inr m, w2)"
    and m: "mtype m = AudioMsg" "originalContent m = Some ''Transcription failed''"
    and w2: "usage w2 userId FileStorageBytes = usage w userId FileStorageBytes + blobSize b"
      "usage w2 userId AiInteractions = usage w userId AiInteractions"
      "messages w2 = messages w"
    by (simp add: assms(5,6) handlePayload_audio)
  define ht where "ht = handleTranslation e userId contentArg chatData langs m w2"
  have eq: "out = (case ht of
                     (Inl err, w3) \<Rightarrow> (Inl err, w3)
                   | (Inr m', w3) \<Rightarrow> (Inr (), addDoc cid m' w3))"
    unfolding out_def ht_def by (simp add: sendMessage_stages [OF assms(3,4)] p)
  have st: "usage (snd out) userId FileStorageBytes = usage w userId FileStorageBytes + blobSize b"
    unfolding eq ht_def by (simp add: finish_state(3) w2)
  have ms: "messages (snd ht) = messages w"
    unfolding ht_def using handleTranslation_state [of e userId contentArg chatData langs m w2] w2
    by simp
  show ?thesis
  proof (cases aiDenied)
    case True
    then obtain d where "chatData = Some d" "ctype d = Ai"
      "\<not> enat (usage w2 userId AiInteractions) < plan e userId AiInteractions"
      by (auto simp: aiDenied_def w2 split: option.splits)
    with m have "ht = (Inl AiInteractionLimit,
                       w2\<lparr>calls := calls w2 @ [CheckAndIncrementUsage userId AiInteractions]\<rparr>)"
      unfolding ht_def by (simp add: handleTranslation_Ai_denied)
    with True st w2 show ?thesis by (simp add: eq)
  next
    case False
    have "\<not> isl (fst ht)"
    proof
      assume "isl (fst ht)"
      then obtain err where "fst ht = Inl err" by (cases "fst ht") auto
      from handleTranslation_Inl [OF this [unfolded ht_def]] False w2 show False
        by (auto simp: aiDenied_def)
    qed
    then obtain m' where m': "fst ht = Inr m'" by (cases "fst ht") auto
    from handleTranslation_Inr [OF m' [unfolded ht_def]] m
    have "mtype m' = AudioMsg" "originalContent m' = Some ''Transcription failed''" by simp_all
    moreover from m' ms have "fst out = Inr ()"
      "messages (snd out) = (messages w)(cid := messages w cid @ [m'])"
      by (cases ht; simp add: eq addDoc_def logCall_def Let_def)+
    ultimately show ?thesis using False st by auto
  qed
qed


theorem C6_witness:
  "\<not> rejected [] None (Some voice) ''alice''
   \<and> fst (checkAndIncrementUsage (testEnv False True) ''alice'' Messages emptyWorld)
   \<and> stt (testEnv False True) voice = None
   \<and> usage (snd (sendMessage (testEnv False True) [] None (Some voice) ''c1'' ''alice''
          (Some privateChat) [] emptyWorld)) ''alice'' FileStorageBytes = 4096
   \<and> fst (sendMessage (testEnv False True) [] None (Some voice) ''c1'' ''alice''
          (Some privateChat) [] emptyWorld) = Inr ()
   \<and> (\<exists>m. messages (snd (sendMessage (testEnv False True) [] None (Some voice) ''c1'' ''alice''
               (Some privateChat) [] emptyWorld))
             = (messages emptyWorld)(''c1'' := messages emptyWorld ''c1'' @ [m])
          \<and> mtype m = AudioMsg \<and> originalContent m = Some ''Transcription failed'')"
proof -
  have h1: "\<not> rejected [] None (Some voice) ''alice''"
    by (simp add: rejected_def)
  have h2: "fst (checkAndIncrementUsage (testEnv False True) ''alice'' Messages emptyWorld)"
    by (simp add: checkAndIncrementUsage_eq example_defs)
  have h3: "stt (testEnv False True) voice = None"
    by (simp add: testEnv_def)
  have n: "\<not> (case Some privateChat of
               Some d \<Rightarrow> ctype d = Ai
                 \<and> \<not> enat (usage emptyWorld ''alice'' AiInteractions)
                       < plan (testEnv False True) ''alice'' AiInteractions
             | None \<Rightarrow> False)"
    by (simp add: privateChat_def)
  have u: "usage emptyWorld ''alice'' FileStorageBytes + blobSize voice = 4096"
    by (simp add: example_defs)
  from C6_transcription_failure_not_fatal [OF h1 h2 refl h3, of "''c1''" "Some privateChat" "[]"]
    n u h1 h2 h3
  show ?thesis by simp
qed

section \<open>Hard failures\<close>

text \<open>
  C7, as stated, fails: a 12 MiB file is refused with the absolute size error after the
  message charge was taken, and the sender's \<open>messages\<close> counter keeps that unit.
\<close>

theorem C7_counterexample:
  "fst (sendMessage (testEnv True True) [] (Some bigFile) None ''c1'' ''alice''
          (Some privateChat) [] emptyWorld) = Inl FileSizeExceeded
   \<and> usage emptyWorld ''alice'' Messages = 0
   \<and> usage (snd (sendMessage (testEnv True True) [] (Some bigFile) None ''c1'' ''alice''
          (Some privateChat) [] emptyWorld)) ''alice'' Messages = 1"
  by (simp add: dispatch_defs rejected_def MAX_FILE_SIZE_def checkAndIncrementUsage_eq
        example_defs)

text \<open>
  C7, amended: a \<^verbatim>\<open>sendMessage\<close> call that ends in a hard failure appends no message.
  After a message quota denial every usage counter is as before. After a file storage
  denial or an absolute size violation the sender's \<open>messages\<close> counter keeps the unit
  charged at the start of the dispatch and no other counter has changed. After an
  AI interaction denial the \<open>messages\<close> counter keeps that unit and, for an audio send,
  the file storage counter keeps the byte size of the uploaded blob.
\<close>

theorem C7_hard_failure_state:
  fixes e contentArg fileArg audioBlob cid userId chatData langs w
  defines "out \<equiv> sendMessage e contentArg fileArg audioBlob cid userId chatData langs w"
      and "charged \<equiv> (usage w)(userId := (usage w userId)(Messages := Suc (usage w userId Messages)))"
  assumes "fst out = Inl err"
  shows "messages (snd out) = messages w
       \<and> usage (snd out) =
           (case err of
              MessageLimit \<Rightarrow> usage w
            | FileStorageLimit \<Rightarrow> charged
            | FileSizeExceeded \<Rightarrow> charged
            | AiInteractionLimit \<Rightarrow>
                (case audioBlob of
                   None \<Rightarrow> charged
                 | Some b \<Rightarrow> charged(userId := (charged userId)
                     (FileStorageBytes := usage w userId FileStorageBytes + blobSize b))))"
proof (cases "rejected contentArg fileArg audioBlob userId")
  case True
  with assms(3) show ?thesis by (simp add: out_def sendMessage_def)
next
  case nr: False
  show ?thesis
  proof (cases "fst (checkAndIncrementUsage e userId Messages w)")
    case False
    with nr assms(3) show ?thesis
      by (auto simp: out_def sendMessage_def checkAndIncrementUsage_eq split: if_splits)
  next
    case ok: True
    let ?w1 = "w\<lparr>usage := charged, calls := calls w @ [CheckAndIncrementUsage userId Messages]\<rparr>"
    note stages = sendMessage_stages [OF nr ok, of cid chatData langs, folded out_def charged_def]
    have after: "messages (snd out) = messages w \<and> usage (snd out) = usage w2
                 \<and> err = AiInteractionLimit"
      if p: "handlePayload e contentArg fileArg audioBlob cid userId ?w1 = (Inr m, w2)"
        and w2: "messages w2 = messages w" for m w2
    proof -
      define ht where "ht = handleTranslation e userId contentArg chatData langs m w2"
      have eq: "out = (case ht of (Inl err, w3) \<Rightarrow> (Inl err, w3)
                       | (Inr m', w3) \<Rightarrow> (Inr (), addDoc cid m' w3))"
        unfolding ht_def by (simp add: stages p)
      from assms(3) have l: "fst ht = Inl err"
        by (cases ht; cases "fst ht") (auto simp: eq)
      from handleTranslation_Inl [OF l [unfolded ht_def]]
      have "err = AiInteractionLimit"
        "snd ht = w2\<lparr>calls := calls w2 @ [CheckAndIncrementUsage userId AiInteractions]\<rparr>"
        by (simp_all add: ht_def)
      with l w2 show ?thesis by (cases ht) (simp add: eq)
    qed
    show ?thesis
    proof (cases audioBlob)
      case (Some b)
      from after [OF handlePayload_audio [of e contentArg fileArg b cid userId ?w1, folded Some]]
      show ?thesis by (simp add: Some charged_def)
    next
      case None
      show ?thesis
      proof (cases fileArg)
        case nf: None
        from after [OF handlePayload_text [of e contentArg cid userId ?w1, folded None nf]]
        show ?thesis by (simp add: None)
      next
        case (Some f)
        from assms(3) show ?thesis
          by (auto simp: stages None Some handlePayload_file handleTranslation_def charged_def
                split: if_splits)
      qed
    qed
  qed
qed


theorem C7_witness:
  "fst (sendMessage (testEnv True True) [] (Some bigFile) None ''c1'' ''alice''
          (Some privateChat) [] emptyWorld) = Inl FileSizeExceeded
   \<and> messages (snd (sendMessage (testEnv True True) [] (Some bigFile) None ''c1'' ''alice''
          (Some privateChat) [] emptyWorld)) = messages emptyWorld
   \<and> usage (snd (sendMessage (testEnv True True) [] (Some bigFile) None ''c1'' ''alice''
          (Some privateChat) [] emptyWorld))
       = (usage emptyWorld)(''alice'' := (usage emptyWorld ''alice'')
            (Messages := Suc (usage emptyWorld ''alice'' Messages)))"
proof -
  have h: "fst (sendMessage (testEnv True True) [] (Some bigFile) None ''c1'' ''alice''
                 (Some privateChat) [] emptyWorld) = Inl FileSizeExceeded"
    by (simp add: dispatch_defs rejected_def MAX_FILE_SIZE_def checkAndIncrementUsage_eq
          example_defs)
  from C7_hard_failure_state [OF h] h show ?thesis by simp
qed

section \<open>Translation by chat type\<close>

text \<open>
  C2: a text or audio send into a private chat that passes the input guard and the
  message quota check, where the first participant other than the sender has a profile,
  succeeds and appends one message. If the translation quota check succeeds, its content
  is what \<^verbatim>\<open>translateMessage\<close> returns for the input text (the transcript for audio) and
  the target language: the recipient's preferred language, and "en" when that is unset
  or empty. If the check is denied, its content is the input text unchanged. No error is
  raised either way.
\<close>

theorem C2_private_translation:
  fixes e contentArg fileArg audioBlob cid userId chatData langs w and userData :: UserData
  defines "out \<equiv> sendMessage e contentArg fileArg audioBlob cid userId chatData langs w"
      and "original \<equiv> (case audioBlob of
                           Some b \<Rightarrow> (case stt e b of Some t \<Rightarrow> t | None \<Rightarrow> ''Transcription failed'')
                         | None \<Rightarrow> contentArg)"
      and "lang \<equiv> (case preferredLang userData of
                       None \<Rightarrow> ''en''
                     | Some l \<Rightarrow> if l = [] then ''en'' else l)"
  assumes "\<not> rejected contentArg fileArg audioBlob userId"
      and "fst (checkAndIncrementUsage e userId Messages w)"
      and "audioBlob \<noteq> None \<or> fileArg = None"
      and "chatData = Some cd" and "ctype cd = Private"
      and "find (\<lambda>p. p \<noteq> userId) (participants cd) = Some other" and "other \<noteq> []"
      and "userDocs e other = Some userData"
  shows "fst out = Inr ()
       \<and> (\<exists>m. messages (snd out) = (messages w)(cid := messages w cid @ [m])
              \<and> content m = Single
                  (if fst (checkAndIncrementUsage e userId Translations w)
                   then translateMessage e original lang
                   else original))"
proof -
  let ?w1 = "w\<lparr>usage := (usage w)(userId := (usage w userId)(Messages := Suc (usage w userId Messages))),
               calls := calls w @ [CheckAndIncrementUsage userId Messages]\<rparr>"
  obtain m w2 pre where p: "handlePayload e contentArg fileArg audioBlob cid userId ?w1 = (Inr m, w2)"
    and ty: "mtype m = TextMsg \<or> mtype m = AudioMsg"
    and tt: "textToTranslate m contentArg =
       (case audioBlob of
          Some b \<Rightarrow> (case stt e b of Some t \<Rightarrow> t | None \<Rightarrow> ''Transcription failed'')
        | None \<Rightarrow> contentArg)"
    and w2m: "messages w2 = messages ?w1"
    and w2t: "usage w2 userId Translations = usage ?w1 userId Translations"
    and w2a: "usage w2 userId AiInteractions = usage ?w1 userId AiInteractions"
    and w2c: "calls w2 = calls ?w1 @ pre"
    and pre: "\<forall>x \<in> set pre. \<forall>u. \<not> translationCall u x"
    using assms(6) by (rule payload_text_or_audio)
  have m: "mtype m = TextMsg \<or> mtype m = AudioMsg" "textToTranslate m contentArg = original"
    using ty tt by (simp_all add: original_def)
  have w2: "messages w2 = messages w" "usage w2 userId Translations = usage w userId Translations"
    "usage w2 userId AiInteractions = usage w userId AiInteractions"
    "calls w2 = calls w @ CheckAndIncrementUsage userId Messages # pre"
    using w2m w2t w2a w2c by simp_all
  define ht where "ht = handleTranslation e userId contentArg chatData langs m w2"
  define m' where "m' = m\<lparr>content := Single
                  (if fst (checkAndIncrementUsage e userId Translations w)
                   then translateMessage e original lang
                   else original)\<rparr>"
  from handleTranslation_Private [OF m(1) assms(7-11), of contentArg langs w2]
  have r: "fst ht = Inr m'"
    by (simp add: ht_def m'_def m w2 checkAndIncrementUsage_allowed targetLang_def lang_def)
  have ms: "messages (snd ht) = messages w"
    using handleTranslation_state [of e userId contentArg chatData langs m w2] w2
    by (simp add: ht_def)
  have eq: "out = (Inr (), addDoc cid m' (snd ht))"
    using r unfolding out_def
    by (cases ht) (simp add: sendMessage_stages [OF assms(4,5)] p ht_def)
  have "messages (snd out) = (messages w)(cid := messages w cid @ [m'])"
    by (simp add: eq addDoc_def logCall_def Let_def ms)
  moreover have "content m' = Single
                  (if fst (checkAndIncrementUsage e userId Translations w)
                   then translateMessage e original lang
                   else original)"
    by (simp add: m'_def)
  ultimately show ?thesis using eq by auto
qed


theorem C2_witness:
  "\<not> rejected ''hi'' None None ''alice''
   \<and> find (\<lambda>p. p \<noteq> ''alice'') (participants privateChat) = Some ''bob''
   \<and> userDocs (testEnv True True) ''bob'' = Some \<lparr>preferredLang = Some ''fr''\<rparr>
   \<and> find (\<lambda>p. p \<noteq> ''alice'') (participants privateChatCarol) = Some ''carol''
   \<and> userDocs (testEnv True True) ''carol'' = Some \<lparr>preferredLang = None\<rparr>
   \<and> fst (sendMessage (testEnv True True) ''hi'' None None ''c1'' ''alice'' (Some privateChat) []
          emptyWorld) = Inr ()
   \<and> (\<exists>m. messages (snd (sendMessage (testEnv True True) ''hi'' None None ''c1'' ''alice''
               (Some privateChat) [] emptyWorld))
             = (messages emptyWorld)(''c1'' := messages emptyWorld ''c1'' @ [m])
          \<and> content m = Single ''fr:hi'')
   \<and> fst (sendMessage (testEnv True True) ''hi'' None None ''c2'' ''alice'' (Some privateChatCarol) []
          emptyWorld) = Inr ()
   \<and> (\<exists>m. messages (snd (sendMessage (testEnv True True) ''hi'' None None ''c2'' ''alice''
               (Some privateChatCarol) [] emptyWorld))
             = (messages emptyWorld)(''c2'' := messages emptyWorld ''c2'' @ [m])
          \<and> content m = Single ''en:hi'')
   \<and> fst (sendMessage (testEnv True True) ''hi'' None None ''c1'' ''alice'' (Some privateChat) []
          (usedWorld ''alice'' Translations 50)) = Inr ()
   \<and> (\<exists>m. messages (snd (sendMessage (testEnv True True) ''hi'' None None ''c1'' ''alice''
               (Some privateChat) [] (usedWorld ''alice'' Translations 50)))
             = (messages (usedWorld ''alice'' Translations 50))
                 (''c1'' := messages (usedWorld ''alice'' Translations 50) ''c1'' @ [m])
          \<and> content m = Single ''hi'')"
proof -
  have q1: "fst (checkAndIncrementUsage (testEnv True True) ''alice'' Messages emptyWorld)"
    by (simp add: checkAndIncrementUsage_eq example_defs)
  have q2: "fst (checkAndIncrementUsage (testEnv True True) ''alice'' Messages
                  (usedWorld ''alice'' Translations 50))"
    by (simp add: checkAndIncrementUsage_eq example_defs)
  have ty: "(None :: blob option) \<noteq> None \<or> (None :: File option) = None" by simp
  have ct: "ctype privateChat = Private" by (simp add: privateChat_def)
  have ct': "ctype privateChatCarol = Private" by (simp add: privateChatCarol_def)
  have f: "find (\<lambda>p. p \<noteq> ''alice'') (participants privateChat) = Some ''bob''"
    by (simp add: privateChat_def)
  have f': "find (\<lambda>p. p \<noteq> ''alice'') (participants privateChatCarol) = Some ''carol''"
    by (simp add: privateChatCarol_def)
  have ne: "''bob'' \<noteq> []" by simp
  have ne': "''carol'' \<noteq> []" by simp
  have d: "userDocs (testEnv True True) ''bob'' = Some \<lparr>preferredLang = Some ''fr''\<rparr>"
    by (simp add: testEnv_def)
  have d': "userDocs (testEnv True True) ''carol'' = Some \<lparr>preferredLang = None\<rparr>"
    by (simp add: testEnv_def)
  have t1: "fst (checkAndIncrementUsage (testEnv True True) ''alice'' Translations emptyWorld)"
    by (simp add: checkAndIncrementUsage_eq example_defs)
  have t2: "\<not> fst (checkAndIncrementUsage (testEnv True True) ''alice'' Translations
                     (usedWorld ''alice'' Translations 50))"
    by (simp add: checkAndIncrementUsage_eq example_defs)
  have fr: "translateMessage (testEnv True True) ''hi'' ''fr'' = ''fr:hi''"
    by (simp add: translateMessage_def testEnv_def)
  have en: "translateMessage (testEnv True True) ''hi'' ''en'' = ''en:hi''"
    by (simp add: translateMessage_def testEnv_def)
  from C2_private_translation [OF not_rejected_text q1 ty refl ct f ne d, of "''c1''" "[]"]
    C2_private_translation [OF not_rejected_text q1 ty refl ct' f' ne' d', of "''c2''" "[]"]
    C2_private_translation [OF not_rejected_text q2 ty refl ct f ne d, of "''c1''" "[]"]
    not_rejected_text f d f' d'
  show ?thesis by (simp add: t1 t2 fr en)
qed





text \<open>
  C4: in a text or audio send into an AI chat that passes the input guard and the message
  quota check, no translation quota charge and no translation request is issued, and
  \<^verbatim>\<open>checkAndIncrementUsage(userId, "aiInteractions")\<close> is issued exactly once. If it is
  denied the send fails with the AI interaction error and no message is appended;
  otherwise the message is appended with the untranslated text as content.
\<close>

theorem C4_ai_chat:
  fixes e contentArg fileArg audioBlob cid userId chatData langs w
  defines "out \<equiv> sendMessage e contentArg fileArg audioBlob cid userId chatData langs w"
      and "original \<equiv> (case audioBlob of
                           Some b \<Rightarrow> (case stt e b of Some t \<Rightarrow> t | None \<Rightarrow> ''Transcription failed'')
                         | None \<Rightarrow> contentArg)"
  assumes "\<not> rejected contentArg fileArg audioBlob userId"
      and "fst (checkAndIncrementUsage e userId Messages w)"
      and "audioBlob \<noteq> None \<or> fileArg = None"
      and "chatData = Some cd" and "ctype cd = Ai"
  shows "(\<forall>u. CheckAndIncrementUsage u Translations \<notin> set (issued w (snd out)))
       \<and> (\<forall>t l. Translate t l \<notin> set (issued w (snd out)))
       \<and> count_list (issued w (snd out)) (CheckAndIncrementUsage userId AiInteractions) = 1
       \<and> (if fst (checkAndIncrementUsage e userId AiInteractions w)
          then fst out = Inr ()
             \<and> (\<exists>m. messages (snd out) = (messages w)(cid := messages w cid @ [m])
                    \<and> content m = Single original)
          else fst out = Inl AiInteractionLimit \<and> messages (snd out) = messages w)"
proof -
  let ?w1 = "w\<lparr>usage := (usage w)(userId := (usage w userId)(Messages := Suc (usage w userId Messages))),
               calls := calls w @ [CheckAndIncrementUsage userId Messages]\<rparr>"
  obtain m w2 pre where p: "handlePayload e contentArg fileArg audioBlob cid userId ?w1 = (Inr m, w2)"
    and ty: "mtype m = TextMsg \<or> mtype m = AudioMsg"
    and tt: "textToTranslate m contentArg =
       (case audioBlob of
          Some b \<Rightarrow> (case stt e b of Some t \<Rightarrow> t | None \<Rightarrow> ''Transcription failed'')
        | None \<Rightarrow> contentArg)"
    and w2m: "messages w2 = messages ?w1"
    and w2t: "usage w2 userId Translations = usage ?w1 userId Translations"
    and w2a: "usage w2 userId AiInteractions = usage ?w1 userId AiInteractions"
    and w2c: "calls w2 = calls ?w1 @ pre"
    and pre: "\<forall>x \<in> set pre. \<forall>u. \<not> translationCall u x"
    using assms(5) by (rule payload_text_or_audio)
  have m: "mtype m = TextMsg \<or> mtype m = AudioMsg" "textToTranslate m contentArg = original"
    using ty tt by (simp_all add: original_def)
  have w2: "messages w2 = messages w" "usage w2 userId Translations = usage w userId Translations"
    "usage w2 userId AiInteractions = usage w userId AiInteractions"
    "calls w2 = calls w @ CheckAndIncrementUsage userId Messages # pre"
    using w2m w2t w2a w2c by simp_all
  from pre have pre': "\<And>u. CheckAndIncrementUsage u Translations \<notin> set pre"
    "\<And>t l. Translate t l \<notin> set pre"
    "CheckAndIncrementUsage userId AiInteractions \<notin> set pre"
    by (auto simp: translationCall_def)
  then have cnt: "count_list pre (CheckAndIncrementUsage userId AiInteractions) = 0"
    by (simp add: count_list_0_iff)
  note ht = handleTranslation_Ai [OF m(1) assms(6,7), of e userId contentArg langs w2]
  note st = sendMessage_stages [OF assms(3,4), of cid chatData langs, folded out_def]
  show ?thesis
  proof (cases "fst (checkAndIncrementUsage e userId AiInteractions w)")
    case True
    then have a: "enat (usage w userId AiInteractions) < plan e userId AiInteractions"
      by (simp add: checkAndIncrementUsage_allowed)
    have "issued w (snd out) = CheckAndIncrementUsage userId Messages # pre
            @ [CheckAndIncrementUsage userId AiInteractions, AddDoc cid]"
      by (simp add: st p ht a issued_def addDoc_def logCall_def Let_def w2)
    moreover have "fst out = Inr ()"
      by (simp add: st p ht a w2)
    moreover have "messages (snd out) =
        (messages w)(cid := messages w cid @ [m\<lparr>content := Single original\<rparr>])"
      by (simp add: st p ht a addDoc_def logCall_def Let_def w2 m)
    moreover have "content (m\<lparr>content := Single original\<rparr>) = Single original" by simp
    ultimately show ?thesis using True pre' cnt by auto
  next
    case False
    then have a: "\<not> enat (usage w userId AiInteractions) < plan e userId AiInteractions"
      by (simp add: checkAndIncrementUsage_allowed)
    have "issued w (snd out) = CheckAndIncrementUsage userId Messages # pre
            @ [CheckAndIncrementUsage userId AiInteractions]"
      by (simp add: st p ht a issued_def w2)
    moreover have "fst out = Inl AiInteractionLimit" "messages (snd out) = messages w"
      by (simp_all add: st p ht a w2)
    ultimately show ?thesis using False pre' cnt by auto
  qed
qed


theorem C4_witness:
  "\<not> rejected ''hi'' None None ''alice''
   \<and> \<not> fst (checkAndIncrementUsage (testEnv True True) ''alice'' AiInteractions
              (usedWorld ''alice'' AiInteractions 20))
   \<and> count_list (issued (usedWorld ''alice'' AiInteractions 20)
          (snd (sendMessage (testEnv True True) ''hi'' None None ''c1'' ''alice'' (Some aiChat) []
             (usedWorld ''alice'' AiInteractions 20))))
        (CheckAndIncrementUsage ''alice'' AiInteractions) = 1
   \<and> fst (sendMessage (testEnv True True) ''hi'' None None ''c1'' ''alice'' (Some aiChat) []
          (usedWorld ''alice'' AiInteractions 20)) = Inl AiInteractionLimit
   \<and> messages (snd (sendMessage (testEnv True True) ''hi'' None None ''c1'' ''alice'' (Some aiChat) []
          (usedWorld ''alice'' AiInteractions 20))) = messages (usedWorld ''alice'' AiInteractions 20)"
proof -
  have q: "fst (checkAndIncrementUsage (testEnv True True) ''alice'' Messages
                 (usedWorld ''alice'' AiInteractions 20))"
    by (simp add: checkAndIncrementUsage_eq example_defs)
  have a: "\<not> fst (checkAndIncrementUsage (testEnv True True) ''alice'' AiInteractions
                    (usedWorld ''alice'' AiInteractions 20))"
    by (simp add: checkAndIncrementUsage_eq example_defs)
  have ty: "(None :: blob option) \<noteq> None \<or> (None :: File option) = None" by simp
  have ct: "ctype aiChat = Ai" by (simp add: aiChat_def)
  from C4_ai_chat [OF not_rejected_text q ty refl ct, of "''c1''" "[]"] a not_rejected_text
  show ?thesis by simp
qed

section \<open>Invitation acceptance and the capacity of private chats\<close>

lemmas invitation_defs = clientStep_def acceptInvitationEffect_def handleAcceptInvitation_getDoc_def
  handleAcceptInvitation_updateDoc_def handleAcceptInvitation_def updateDoc_def arrayUnion_def
  fail_def Let_def

lemma full_private_snapshot_refused:
  assumes "ctype chatData = Private" and "length (participants chatData) \<ge> 2"
  shows "handleAcceptInvitation_updateDoc cid uid (Some chatData) cs c =
           (cs, fail ''This private chat already has two members'' c)"
  using assms by (simp add: handleAcceptInvitation_updateDoc_def)

lemma handleAcceptInvitation_full:
  assumes "token c = Some cid" and "sessionUserId c = Some uid" and "uid \<noteq> []"
      and "cs cid = Some chatData" and "ctype chatData = Private"
      and "length (participants chatData) \<ge> 2"
  shows "fst (handleAcceptInvitation cs c) = cs
       \<and> state (page (snd (handleAcceptInvitation cs c))) = ErrorState
       \<and> errorText (page (snd (handleAcceptInvitation cs c)))
           = ''This private chat already has two members''"
  using assms by (simp add: invitation_defs)

lemma length_arrayUnion: "length (arrayUnion x xs) \<le> Suc (length xs)"
  by (simp add: arrayUnion_def)

lemma handleAcceptInvitation_within_two:
  assumes "privateChatsWithinTwo cs"
  shows "privateChatsWithinTwo (fst (handleAcceptInvitation cs c))"
proof (cases "\<exists>cid uid chatData. token c = Some cid \<and> sessionUserId c = Some uid \<and> uid \<noteq> []
                \<and> cs cid = Some chatData
                \<and> \<not> (ctype chatData = Private \<and> length (participants chatData) \<ge> 2)
                \<and> ctype chatData \<noteq> Ai")
  case False
  then have "fst (handleAcceptInvitation cs c) = cs"
    by (auto simp: invitation_defs split: option.splits)
  with assms show ?thesis by simp
next
  case True
  then obtain cid uid chatData where h: "token c = Some cid" "sessionUserId c = Some uid"
    "uid \<noteq> []" "cs cid = Some chatData"
    "\<not> (ctype chatData = Private \<and> length (participants chatData) \<ge> 2)" "ctype chatData \<noteq> Ai"
    by blast
  then have eq: "fst (handleAcceptInvitation cs c) =
      cs(cid \<mapsto> chatData\<lparr>participants := arrayUnion uid (participants chatData)\<rparr>)"
    by (auto simp: invitation_defs)
  from h have "ctype chatData = Private \<longrightarrow> length (participants chatData) < 2"
    by auto
  with length_arrayUnion [of uid "participants chatData"]
  have "ctype chatData = Private \<longrightarrow> length (arrayUnion uid (participants chatData)) \<le> 2"
    by auto
  with assms show ?thesis
    unfolding eq privateChatsWithinTwo_def by auto
qed

lemma sequential_runs_refuse_third:
  "fst (schedule [0, 0, 1, 1] (oneMember, [invitee ''bob'', invitee ''carol''])) ''c1''
     = Some \<lparr>ctype = Private, participants = [''alice'', ''bob'']\<rparr>
   \<and> map (state \<circ> page) (snd (schedule [0, 0, 1, 1] (oneMember, [invitee ''bob'', invitee ''carol''])))
     = [Redirecting, ErrorState]"
  by (simp add: invitation_defs invitee_def oneMember_def initialPage_def)

text \<open>
  C9: a run whose read finds a private chat with two or more participants ends in the
  \<open>error\<close> state and writes nothing, and runs that follow one another keep every private
  chat within two participants (the lemmas above). The bound itself is not kept by the
  code. The read and the update of \<^verbatim>\<open>handleAcceptInvitation\<close> are separate awaits
  outside any transaction: when bob and carol open the link of a private chat that holds
  only alice, and both reads are answered before either update, both pass the check for
  two members, both updates are applied, both pages show success, and the private chat
  has three participants.
\<close>

theorem C9_overlapping_runs_exceed_two:
  "oneMember ''c1'' = Some \<lparr>ctype = Private, participants = [''alice'']\<rparr>
   \<and> fst (schedule [0, 1, 0, 1] (oneMember, [invitee ''bob'', invitee ''carol''])) ''c1''
       = Some \<lparr>ctype = Private, participants = [''alice'', ''bob'', ''carol'']\<rparr>
   \<and> map (state \<circ> page) (snd (schedule [0, 1, 0, 1] (oneMember, [invitee ''bob'', invitee ''carol''])))
       = [Redirecting, Redirecting]"
  by (simp add: invitation_defs invitee_def oneMember_def initialPage_def)

end
